theory Spec2Isabelle
  imports Complex_Main
begin

section \<open>Data model\<close>

text \<open>
  Python floats are modelled as real numbers with exact arithmetic: the properties below
  are those of the formulas the code evaluates, not of IEEE rounding. The one exception
  is \<open>score_angle_difference_double\<close>, which rounds after every operation as binary64
  arithmetic does and decides what \<open>score_angle_difference\<close> returns bit for bit.

  The enumerations \<open>FOW\<close> and \<open>FRC\<close> of the \<open>openlr\<close> package are integer enums with
  eight members each; \<open>fow_value\<close> and \<open>frc_value\<close> give the integer a member stands for
  where the code indexes or subtracts with it.
\<close>

datatype FOW =
  UNDEFINED | MOTORWAY | MULTIPLE_CARRIAGEWAY | SINGLE_CARRIAGEWAY
  | ROUNDABOUT | TRAFFICSQUARE | SLIPROAD | OTHER

fun fow_value :: "FOW \<Rightarrow> nat" where
  "fow_value UNDEFINED = 0"
| "fow_value MOTORWAY = 1"
| "fow_value MULTIPLE_CARRIAGEWAY = 2"
| "fow_value SINGLE_CARRIAGEWAY = 3"
| "fow_value ROUNDABOUT = 4"
| "fow_value TRAFFICSQUARE = 5"
| "fow_value SLIPROAD = 6"
| "fow_value OTHER = 7"

datatype FRC = FRC0 | FRC1 | FRC2 | FRC3 | FRC4 | FRC5 | FRC6 | FRC7

fun frc_value :: "FRC \<Rightarrow> int" where
  "frc_value FRC0 = 0"
| "frc_value FRC1 = 1"
| "frc_value FRC2 = 2"
| "frc_value FRC3 = 3"
| "frc_value FRC4 = 4"
| "frc_value FRC5 = 5"
| "frc_value FRC6 = 6"
| "frc_value FRC7 = 7"

datatype SideOfRoad = ON_ROAD_OR_UNKNOWN | RIGHT | LEFT | BOTH_SIDES

datatype Orientation =
  NO_ORIENTATION_OR_UNKNOWN | WITH_LINE_DIRECTION | AGAINST_LINE_DIRECTION | BOTH_DIRECTIONS

text \<open>\<open>Coordinates\<close> is a named tuple \<open>(lon, lat)\<close>.\<close>

type_synonym Coordinates = "real \<times> real"

record LocationReferencePoint =
  lon :: real
  lat :: real
  frc :: FRC
  fow :: FOW
  bear :: real
  lfrcnp :: FRC
  dnp :: real

text \<open>
  A \<open>Line\<close> of the map: the properties of the abstract map interface that the decoding
  code reads. The fields carry the prefix \<open>line_\<close> because \<open>length\<close>, \<open>fow\<close> and \<open>frc\<close>
  are taken.
\<close>

record Line =
  line_id :: int
  line_length :: real
  line_fow :: FOW
  line_frc :: FRC
  line_coordinates :: "Coordinates list"

record PointOnLine =
  line :: Line
  relative_offset :: real

record Route =
  start :: PointOnLine
  path_inbetween :: "Line list"
  end_point :: PointOnLine

datatype error = LRDecodeError string

text \<open>
  The geodesy primitives of \<open>maps.wgs84\<close> and the two methods of \<open>PointOnLine\<close> that the
  scorer calls live outside the files verified here; the scorer takes them as an
  environment. A sub-polyline returned by \<open>split\<close> is its list of coordinates, so
  \<open>linestring_coords\<close> is the identity on it.
\<close>

record env =
  distance :: "Coordinates \<Rightarrow> Coordinates \<Rightarrow> real"
  bearing :: "Coordinates \<Rightarrow> Coordinates \<Rightarrow> real"
  project_along_path :: "Coordinates list \<Rightarrow> real \<Rightarrow> Coordinates"
  position :: "PointOnLine \<Rightarrow> Coordinates"
  split :: "PointOnLine \<Rightarrow> Coordinates list option \<times> Coordinates list option"

definition coords :: "LocationReferencePoint \<Rightarrow> Coordinates" where
  "coords lrp = (lon lrp, lat lrp)"

definition linestring_coords :: "Coordinates list \<Rightarrow> Coordinates list" where
  "linestring_coords ls = ls"

section \<open>Scoring\<close>

definition FOW_WEIGHT :: real where "FOW_WEIGHT = 1 / 4"
definition FRC_WEIGHT :: real where "FRC_WEIGHT = 1 / 4"
definition GEO_WEIGHT :: real where "GEO_WEIGHT = 1 / 4"
definition BEAR_WEIGHT :: real where "BEAR_WEIGHT = 1 / 4"

definition BEAR_DIST :: real where "BEAR_DIST = 20"

definition FOW_STAND_IN_SCORE :: "real list list" where
  "FOW_STAND_IN_SCORE =
    [[0.50, 0.50, 0.50, 0.50, 0.50, 0.50, 0.50, 0.5],
     [0.50, 1.00, 0.75, 0.00, 0.00, 0.00, 0.00, 0.0],
     [0.50, 0.75, 1.00, 0.75, 0.50, 0.00, 0.00, 0.0],
     [0.50, 0.00, 0.75, 1.00, 0.50, 0.50, 0.00, 0.0],
     [0.50, 0.00, 0.50, 0.50, 1.00, 0.50, 0.00, 0.0],
     [0.50, 0.00, 0.00, 0.50, 0.50, 1.00, 0.00, 0.0],
     [0.50, 0.00, 0.00, 0.00, 0.00, 0.00, 1.00, 0.0],
     [0.50, 0.00, 0.00, 0.00, 0.00, 0.00, 0.00, 1.0]]"

definition score_fow :: "FOW \<Rightarrow> FOW \<Rightarrow> real" where
  "score_fow wanted actual = FOW_STAND_IN_SCORE ! fow_value wanted ! fow_value actual"

definition score_frc :: "FRC \<Rightarrow> FRC \<Rightarrow> real" where
  "score_frc wanted actual = 1.0 - real_of_int \<bar>frc_value actual - frc_value wanted\<bar> / 7"

definition score_geolocation ::
  "env \<Rightarrow> LocationReferencePoint \<Rightarrow> PointOnLine \<Rightarrow> real \<Rightarrow> bool \<Rightarrow> real" where
  "score_geolocation e wanted actual radius is_last_lrp =
    (let dist = distance e (coords wanted) (position e actual)
     in if dist < radius then 1.0 - dist / radius else 0.0)"

text \<open>Python's \<open>x % y\<close> on floats, for a positive \<open>y\<close>: the remainder of the floored division.\<close>

definition py_mod :: "real \<Rightarrow> real \<Rightarrow> real" where
  "py_mod x y = x - y * of_int \<lfloor>x / y\<rfloor>"

definition score_angle_difference :: "real \<Rightarrow> real \<Rightarrow> real" where
  "score_angle_difference angle1 angle2 =
    (let difference = py_mod (\<bar>angle1 - angle2\<bar> + 180) 360 - 180
     in 1 - \<bar>difference\<bar> / 180)"

text \<open>
  Binary64 arithmetic. A double is a real number that \<open>round_double\<close> leaves unchanged;
  an operation on doubles returns the exact result rounded to the nearest double, a tie
  going to the double with the even significand. \<open>exponent\<close> is the binary exponent of
  a number, found by halving or doubling and kept within -1022 and 1023, so that numbers
  below the normal range are rounded on the grid of the subnormal doubles; \<open>ulp\<close> is
  the spacing of the doubles there. A result larger than \<open>double_max\<close> is an infinity in
  the code.
\<close>

definition round_half_even :: "real \<Rightarrow> int" where
  "round_half_even x =
    (let f = \<lfloor>x\<rfloor>; r = x - of_int f
     in if r < 1 / 2 then f else if 1 / 2 < r then f + 1 else if even f then f else f + 1)"

fun exponent_above :: "nat \<Rightarrow> real \<Rightarrow> int" where
  "exponent_above 0 x = 0"
| "exponent_above (Suc n) x = (if x < 2 then 0 else 1 + exponent_above n (x / 2))"

fun exponent_below :: "nat \<Rightarrow> real \<Rightarrow> int" where
  "exponent_below 0 x = 0"
| "exponent_below (Suc n) x = (if 1 \<le> x then 0 else exponent_below n (2 * x) - 1)"

definition exponent :: "real \<Rightarrow> int" where
  "exponent x =
    (if 1 \<le> \<bar>x\<bar> then exponent_above 1023 \<bar>x\<bar> else exponent_below 1022 \<bar>x\<bar>)"

definition ulp :: "real \<Rightarrow> real" where
  "ulp x = 2 powi (exponent x - 52)"

definition round_double :: "real \<Rightarrow> real" where
  "round_double x = of_int (round_half_even (x / ulp x)) * ulp x"

definition double_max :: real where
  "double_max = (2 ^ 53 - 1) * 2 ^ 971"

text \<open>
  \<open>score_angle_difference\<close> as the interpreter evaluates it on two doubles: the
  subtraction, the addition of 180, the subtraction of 180, the division and the final
  subtraction each round; \<open>abs\<close> is exact, and so is \<open>%\<close> here, its left operand being
  positive (the C function \<open>fmod\<close> is exact and its result needs no adjustment). The
  subtraction of two doubles of opposite sign can overflow to an infinity, whose remainder
  is a NaN, and so is the score: that is \<open>None\<close>. No later operation can overflow.
\<close>

definition score_angle_difference_double :: "real \<Rightarrow> real \<Rightarrow> real option" where
  "score_angle_difference_double angle1 angle2 =
    (let d = round_double (angle1 - angle2)
     in if double_max < \<bar>d\<bar> then None
        else (let difference = round_double (py_mod (round_double (\<bar>d\<bar> + 180)) 360 - 180)
              in Some (round_double (1 - round_double (\<bar>difference\<bar> / 180)))))"

definition degrees :: "real \<Rightarrow> real" where
  "degrees x = x * 180 / pi"

text \<open>
  The point \<open>score_bearing\<close> takes the bearing to: \<open>None\<close> where the code returns the
  score 0.0 because the sub-polyline it needs is absent.
\<close>

definition bearing_point :: "env \<Rightarrow> PointOnLine \<Rightarrow> bool \<Rightarrow> Coordinates option" where
  "bearing_point e actual is_last_lrp =
    (case split e actual of (line1, line2) \<Rightarrow>
      (case (if is_last_lrp then map_option (\<lambda>l. rev (linestring_coords l)) line1
             else map_option linestring_coords line2) of
         None \<Rightarrow> None
       | Some coordinates \<Rightarrow>
           (let absolute_offset = line_length (line actual) * relative_offset actual
            in Some (project_along_path e coordinates (absolute_offset + BEAR_DIST)))))"

definition score_bearing :: "env \<Rightarrow> LocationReferencePoint \<Rightarrow> PointOnLine \<Rightarrow> bool \<Rightarrow> real" where
  "score_bearing e wanted actual is_last_lrp =
    (case bearing_point e actual is_last_lrp of
       None \<Rightarrow> 0.0
     | Some bp \<Rightarrow>
         (let bear' = degrees (bearing e (position e actual) bp)
          in score_angle_difference (bear wanted) bear'))"

definition score_lrp_candidate ::
  "env \<Rightarrow> LocationReferencePoint \<Rightarrow> PointOnLine \<Rightarrow> real \<Rightarrow> bool \<Rightarrow> real" where
  "score_lrp_candidate e wanted candidate radius is_last_lrp =
     FOW_WEIGHT * score_fow (fow wanted) (line_fow (line candidate))
     + FRC_WEIGHT * score_frc (frc wanted) (line_frc (line candidate))
     + GEO_WEIGHT * score_geolocation e wanted candidate radius is_last_lrp
     + BEAR_WEIGHT * score_bearing e wanted candidate is_last_lrp"

section \<open>Point locations\<close>

text \<open>
  The loop of \<open>point_along_linelocation\<close> over the lines in between, followed by the
  code after the loop that looks at the end line.
\<close>

fun point_along_rest :: "Line list \<Rightarrow> PointOnLine \<Rightarrow> real \<Rightarrow> error + (Line \<times> real)" where
  "point_along_rest [] end_pol leftover_length =
    (let end_offset = line_length (line end_pol) * relative_offset end_pol;
         leftover_length' = leftover_length - end_offset
     in if leftover_length' < 0.0 then Inr (line end_pol, end_offset)
        else Inl (LRDecodeError ''Path length exceeded while projecting point''))"
| "point_along_rest (road # roads) end_pol leftover_length =
    (if leftover_length > line_length road
     then point_along_rest roads end_pol (leftover_length - line_length road)
     else Inr (road, leftover_length))"

definition point_along_linelocation :: "Route \<Rightarrow> real \<Rightarrow> error + (Line \<times> real)" where
  "point_along_linelocation route len =
    (let leftover_length =
           len - line_length (line (start route)) * (1.0 - relative_offset (start route))
     in if leftover_length < 0.0
        then Inr (line (start route),
                  line_length (line (start route)) * relative_offset (start route) + len)
        else point_along_rest (path_inbetween route) (end_point route) leftover_length)"

text \<open>
  The invariant of a point on a line in the data model: the offset is a fraction of the
  line, and a line has no negative length.
\<close>

definition well_formed_point :: "PointOnLine \<Rightarrow> bool" where
  "well_formed_point p \<longleftrightarrow>
     0 \<le> line_length (line p) \<and> 0 \<le> relative_offset p \<and> relative_offset p \<le> 1"

text \<open>
  Modelled from the spec: \<open>Route.length\<close> of \<open>line_location.py\<close>, which is not among the
  files verified here. The length of a route is the remainder of the start line, the
  whole lines in between and the portion of the end line; on a route that starts and ends
  on one line, the end not before the start, it is the part of the line between the two
  offsets.
\<close>

definition route_length :: "Route \<Rightarrow> real" where
  "route_length route =
    (if line (start route) = line (end_point route)
        \<and> relative_offset (start route) \<le> relative_offset (end_point route)
     then line_length (line (start route))
          * (relative_offset (end_point route) - relative_offset (start route))
     else line_length (line (start route)) * (1 - relative_offset (start route))
          + sum_list (map line_length (path_inbetween route))
          + line_length (line (end_point route)) * relative_offset (end_point route))"

text \<open>
  Modelled from the spec: \<open>get_lines\<close> of \<open>line_location.py\<close> and \<open>path_length\<close> of the
  \<open>maps\<close> package, which give the sum-of-lines length: every line a route touches,
  counted whole.
\<close>

definition route_lines :: "Route \<Rightarrow> Line list" where
  "route_lines route = line (start route) # path_inbetween route @ [line (end_point route)]"

definition get_lines :: "Route list \<Rightarrow> Line list" where
  "get_lines routes = concat (map route_lines routes)"

definition path_length :: "Line list \<Rightarrow> real" where
  "path_length lines = sum_list (map line_length lines)"

record PointAlongLineLocation =
  points :: "LocationReferencePoint list"
  poffs :: real
  orientation :: Orientation
  sideOfRoad :: SideOfRoad

record PoiWithAccessPointLocation =
  points_poi :: "LocationReferencePoint list"
  poffs_poi :: real
  lon_poi :: real
  lat_poi :: real
  orientation_poi :: Orientation
  sideOfRoad_poi :: SideOfRoad

datatype PointAlongLine = PointAlongLine Line real SideOfRoad Orientation

datatype PoiWithAccessPoint = PoiWithAccessPoint Line real SideOfRoad Orientation Coordinates

text \<open>
  The two point decoders. Their first argument stands for
  \<open>combine_routes (dereference_path points reader radius observer)\<close>, the line decoder
  with the map reader, the radius and the observer fixed; it may raise.
\<close>

definition absolute_offset_pointalongline :: "Route \<Rightarrow> PointAlongLineLocation \<Rightarrow> real" where
  "absolute_offset_pointalongline path reference = route_length path * poffs reference"

definition decode_pointalongline ::
  "(LocationReferencePoint list \<Rightarrow> error + Route) \<Rightarrow> PointAlongLineLocation
    \<Rightarrow> error + PointAlongLine" where
  "decode_pointalongline dereference reference =
    (case dereference (points reference) of
       Inl err \<Rightarrow> Inl err
     | Inr path \<Rightarrow>
        (let absolute_offset = absolute_offset_pointalongline path reference
         in case point_along_linelocation path absolute_offset of
              Inl err \<Rightarrow> Inl err
            | Inr (line_object, line_offset) \<Rightarrow>
                Inr (PointAlongLine line_object line_offset
                       (sideOfRoad reference) (orientation reference))))"

definition absolute_offset_poi :: "Route \<Rightarrow> PoiWithAccessPointLocation \<Rightarrow> real" where
  "absolute_offset_poi path reference = path_length (get_lines [path]) * poffs_poi reference"

definition decode_poi_with_accesspoint ::
  "(LocationReferencePoint list \<Rightarrow> error + Route) \<Rightarrow> PoiWithAccessPointLocation
    \<Rightarrow> error + PoiWithAccessPoint" where
  "decode_poi_with_accesspoint dereference reference =
    (case dereference (points_poi reference) of
       Inl err \<Rightarrow> Inl err
     | Inr path \<Rightarrow>
        (let absolute_offset = absolute_offset_poi path reference
         in case point_along_linelocation path absolute_offset of
              Inl err \<Rightarrow> Inl err
            | Inr (line_object, line_offset) \<Rightarrow>
                Inr (PoiWithAccessPoint line_object line_offset
                       (sideOfRoad_poi reference) (orientation_poi reference)
                       (lon_poi reference, lat_poi reference))))"

text \<open>
  The point projection in the words of the spec (section 4.7): walk \<open>d\<close> meters from the
  start of the route, the start line entered at its offset, and give the line reached
  and the meters from that line's start; no point where \<open>d\<close> exceeds the length of the
  route. A segment is a line with the meters at which the route enters and leaves it.
\<close>

fun walk_segments :: "(Line \<times> real \<times> real) list \<Rightarrow> real \<Rightarrow> (Line \<times> real) option" where
  "walk_segments [] d = None"
| "walk_segments ((l, enter, leave) # segs) d =
    (if d \<le> leave - enter then Some (l, enter + d)
     else walk_segments segs (d - (leave - enter)))"

definition route_segments :: "Route \<Rightarrow> (Line \<times> real \<times> real) list" where
  "route_segments route =
    (line (start route),
     line_length (line (start route)) * relative_offset (start route),
     line_length (line (start route)))
    # map (\<lambda>l. (l, 0, line_length l)) (path_inbetween route)
    @ [(line (end_point route), 0,
        line_length (line (end_point route)) * relative_offset (end_point route))]"

definition point_projection_spec :: "Route \<Rightarrow> real \<Rightarrow> (Line \<times> real) option" where
  "point_projection_spec route d =
    (if route_length route < d then None else walk_segments (route_segments route) d)"

section \<open>An example map\<close>

text \<open>
  A flat map in meters whose lines run parallel to the axes, with distances measured along
  them. It gives the environment of the scorer a concrete value at which the definitions
  evaluate; it says nothing about WGS84.
\<close>

definition grid_distance :: "Coordinates \<Rightarrow> Coordinates \<Rightarrow> real" where
  "grid_distance a b = \<bar>fst a - fst b\<bar> + \<bar>snd a - snd b\<bar>"

definition grid_between :: "Coordinates \<Rightarrow> Coordinates \<Rightarrow> real \<Rightarrow> Coordinates" where
  "grid_between p q d =
    (fst p + (fst q - fst p) * d / grid_distance p q,
     snd p + (snd q - snd p) * d / grid_distance p q)"

fun grid_project :: "Coordinates list \<Rightarrow> real \<Rightarrow> Coordinates" where
  "grid_project [] d = (0, 0)"
| "grid_project [p] d = p"
| "grid_project (p # q # ps) d =
    (if d < grid_distance p q then grid_between p q d
     else grid_project (q # ps) (d - grid_distance p q))"

fun grid_before :: "Coordinates list \<Rightarrow> real \<Rightarrow> Coordinates list" where
  "grid_before (p # q # ps) d =
    (if d \<le> grid_distance p q then [p, grid_between p q d]
     else p # grid_before (q # ps) (d - grid_distance p q))"
| "grid_before ps d = ps"

fun grid_after :: "Coordinates list \<Rightarrow> real \<Rightarrow> Coordinates list" where
  "grid_after (p # q # ps) d =
    (if d < grid_distance p q then grid_between p q d # q # ps
     else grid_after (q # ps) (d - grid_distance p q))"
| "grid_after ps d = ps"

definition grid_bearing :: "Coordinates \<Rightarrow> Coordinates \<Rightarrow> real" where
  "grid_bearing a b =
    (if fst b = fst a then (if snd a \<le> snd b then 0 else pi)
     else if fst a < fst b then pi / 2 - arctan ((snd b - snd a) / (fst b - fst a))
     else 3 * pi / 2 - arctan ((snd b - snd a) / (fst b - fst a)))"

definition grid_position :: "PointOnLine \<Rightarrow> Coordinates" where
  "grid_position p =
    grid_project (line_coordinates (line p)) (line_length (line p) * relative_offset p)"

definition grid_split :: "PointOnLine \<Rightarrow> Coordinates list option \<times> Coordinates list option" where
  "grid_split p =
    (let d = line_length (line p) * relative_offset p
     in (if relative_offset p \<le> 0 then None else Some (grid_before (line_coordinates (line p)) d),
         if 1 \<le> relative_offset p then None else Some (grid_after (line_coordinates (line p)) d)))"

definition grid_env :: env where
  "grid_env = \<lparr> distance = grid_distance, bearing = grid_bearing,
                project_along_path = grid_project, position = grid_position,
                split = grid_split \<rparr>"

text \<open>
  A line of 410 meters that runs 180 meters east, 50 meters north and 180 meters back
  west, and the candidate 130 meters into it.
\<close>

definition hook_line :: Line where
  "hook_line = \<lparr> line_id = 1, line_length = 410, line_fow = SINGLE_CARRIAGEWAY,
                 line_frc = FRC3,
                 line_coordinates = [(0, 0), (180, 0), (180, 50), (0, 50)] \<rparr>"

definition hook_candidate :: PointOnLine where
  "hook_candidate = \<lparr> line = hook_line, relative_offset = 13 / 41 \<rparr>"

definition east_lrp :: LocationReferencePoint where
  "east_lrp = \<lparr> lon = 130, lat = 10, frc = FRC3, fow = SINGLE_CARRIAGEWAY, bear = 90,
                lfrcnp = FRC3, dnp = 100 \<rparr>"

text \<open>Two lines of 100 meters each, and routes over them.\<close>

definition line_a :: Line where
  "line_a = \<lparr> line_id = 1, line_length = 100, line_fow = SINGLE_CARRIAGEWAY,
              line_frc = FRC3, line_coordinates = [(0, 0), (100, 0)] \<rparr>"

definition line_b :: Line where
  "line_b = \<lparr> line_id = 2, line_length = 100, line_fow = SINGLE_CARRIAGEWAY,
              line_frc = FRC3, line_coordinates = [(100, 0), (200, 0)] \<rparr>"

definition whole_route :: Route where
  "whole_route = \<lparr> start = \<lparr> line = line_a, relative_offset = 0 \<rparr>, path_inbetween = [],
                   end_point = \<lparr> line = line_b, relative_offset = 1 \<rparr> \<rparr>"

definition half_end_route :: Route where
  "half_end_route = \<lparr> start = \<lparr> line = line_a, relative_offset = 0 \<rparr>, path_inbetween = [],
                      end_point = \<lparr> line = line_b, relative_offset = 1 / 2 \<rparr> \<rparr>"

definition line_c :: Line where
  "line_c = \<lparr> line_id = 3, line_length = 100, line_fow = SINGLE_CARRIAGEWAY,
              line_frc = FRC3, line_coordinates = [(100, 0), (100, 100)] \<rparr>"

definition mid_route :: Route where
  "mid_route = \<lparr> start = \<lparr> line = line_a, relative_offset = 1 / 2 \<rparr>,
                 path_inbetween = [line_c],
                 end_point = \<lparr> line = line_b, relative_offset = 1 / 2 \<rparr> \<rparr>"

definition quarter_reference :: PointAlongLineLocation where
  "quarter_reference = \<lparr> points = [east_lrp, east_lrp], poffs = 1 / 4,
                         orientation = NO_ORIENTATION_OR_UNKNOWN, sideOfRoad = RIGHT \<rparr>"

definition quarter_poi_reference :: PoiWithAccessPointLocation where
  "quarter_poi_reference = \<lparr> points_poi = [east_lrp, east_lrp], poffs_poi = 1 / 4,
                             lon_poi = 7, lat_poi = 8,
                             orientation_poi = NO_ORIENTATION_OR_UNKNOWN,
                             sideOfRoad_poi = RIGHT \<rparr>"

section \<open>The form-of-way table\<close>

text \<open>
  C6 (as amended): the diagonal of the stand-in table is 1.0 for every form of way other
  than the undefined one, the row and the column of the undefined form of way are 0.5
  throughout (their common entry included), and \<open>score_fow\<close> is the lookup in the
  table at the wanted row and the actual column.
\<close>

theorem fow_table_diagonal_and_undefined:
  "(f \<noteq> UNDEFINED \<longrightarrow> FOW_STAND_IN_SCORE ! fow_value f ! fow_value f = 1)
   \<and> FOW_STAND_IN_SCORE ! 0 ! fow_value g = 0.5
   \<and> FOW_STAND_IN_SCORE ! fow_value g ! 0 = 0.5
   \<and> score_fow wanted actual = FOW_STAND_IN_SCORE ! fow_value wanted ! fow_value actual"
proof -
  have d: "f \<noteq> UNDEFINED \<longrightarrow> FOW_STAND_IN_SCORE ! fow_value f ! fow_value f = 1"
    by (cases f) (simp_all add: FOW_STAND_IN_SCORE_def)
  have r: "FOW_STAND_IN_SCORE ! 0 ! fow_value g = 0.5"
    by (cases g) (simp_all add: FOW_STAND_IN_SCORE_def)
  have c: "FOW_STAND_IN_SCORE ! fow_value g ! 0 = 0.5"
    by (cases g) (simp_all add: FOW_STAND_IN_SCORE_def)
  from d r c show ?thesis by (simp add: score_fow_def)
qed

theorem fow_table_diagonal_and_undefined_witness:
  "MOTORWAY \<noteq> UNDEFINED
   \<and> FOW_STAND_IN_SCORE ! fow_value MOTORWAY ! fow_value MOTORWAY = 1
   \<and> FOW_STAND_IN_SCORE ! 0 ! fow_value SLIPROAD = 0.5
   \<and> FOW_STAND_IN_SCORE ! fow_value SLIPROAD ! 0 = 0.5"
  using fow_table_diagonal_and_undefined [of MOTORWAY SLIPROAD UNDEFINED UNDEFINED]
  by simp

text \<open>
  The entry of the table where the undefined row meets the undefined column is 0.5, so the
  diagonal is not 1.0 throughout.
\<close>

theorem fow_table_undefined_diagonal_counterexample:
  "FOW_STAND_IN_SCORE ! fow_value UNDEFINED ! fow_value UNDEFINED \<noteq> 1
   \<and> score_fow UNDEFINED UNDEFINED = 0.5"
  by (simp add: score_fow_def FOW_STAND_IN_SCORE_def)

text \<open>
  C10: the form-of-way score is symmetric in its two arguments, that is, the table equals
  its transpose.
\<close>

theorem score_fow_symmetric: "score_fow a b = score_fow b a"
  by (cases a; cases b) (simp_all add: score_fow_def FOW_STAND_IN_SCORE_def)

section \<open>The geographic score\<close>

text \<open>
  C9: the geographic score does not read \<open>is_last_lrp\<close>: both values of the flag give
  the same score.
\<close>

theorem score_geolocation_ignores_is_last_lrp:
  "score_geolocation e wanted actual radius True
     = score_geolocation e wanted actual radius False"
  by (simp add: score_geolocation_def)

section \<open>The angle difference\<close>

lemma py_mod_360_range: "0 \<le> py_mod x 360 \<and> py_mod x 360 < 360"
proof -
  have lower: "of_int \<lfloor>x / 360\<rfloor> \<le> x / 360" by (rule of_int_floor_le)
  have upper: "x / 360 < of_int \<lfloor>x / 360\<rfloor> + 1" by linarith
  from lower upper show ?thesis unfolding py_mod_def by (simp add: field_simps)
qed

lemma py_mod_360_unique:
  assumes "0 \<le> r" and "r < 360" and "x = r + 360 * of_int k"
  shows "py_mod x 360 = r"
proof -
  have "\<lfloor>x / 360\<rfloor> = k"
  proof (rule floor_unique)
    show "of_int k \<le> x / 360" using assms by (simp add: field_simps)
    show "x / 360 < of_int k + 1" using assms by (simp add: field_simps)
  qed
  then show ?thesis using assms by (simp add: py_mod_def)
qed

lemma py_mod_360_shift: "py_mod (x + 360 * of_int k) 360 = py_mod x 360"
proof (rule py_mod_360_unique)
  show "0 \<le> py_mod x 360" "py_mod x 360 < 360" using py_mod_360_range by auto
  show "x + 360 * of_int k = py_mod x 360 + 360 * of_int (\<lfloor>x / 360\<rfloor> + k)"
    by (simp add: py_mod_def algebra_simps)
qed

text \<open>The normalised difference of \<open>- x\<close> has the size of that of \<open>x\<close>.\<close>

lemma normalised_neg:
  "\<bar>py_mod (- x + 180) 360 - 180\<bar> = \<bar>py_mod (x + 180) 360 - 180\<bar>"
proof -
  define r where "r = py_mod (x + 180) 360"
  define n where "n = \<lfloor>(x + 180) / 360\<rfloor>"
  have r: "0 \<le> r" "r < 360" using py_mod_360_range [of "x + 180"] by (auto simp: r_def)
  have x: "x + 180 = r + 360 * of_int n" by (simp add: r_def n_def py_mod_def)
  show ?thesis
  proof (cases "r = 0")
    case True
    have "py_mod (- x + 180) 360 = 0"
      by (rule py_mod_360_unique [where k = "1 - n"]) (use x True in simp_all)
    with True show ?thesis by (simp add: r_def)
  next
    case False
    have "py_mod (- x + 180) 360 = 360 - r"
      by (rule py_mod_360_unique [where k = "- n"]) (use x r False in simp_all)
    then show ?thesis by (simp add: r_def)
  qed
qed

lemma normalised_abs:
  "\<bar>py_mod (\<bar>x\<bar> + 180) 360 - 180\<bar> = \<bar>py_mod (x + 180) 360 - 180\<bar>"
proof (cases "0 \<le> x")
  case True
  then show ?thesis by simp
next
  case False
  then have "\<bar>x\<bar> = - x" by simp
  then show ?thesis using normalised_neg [of x] by simp
qed

lemma score_angle_difference_signed:
  "score_angle_difference a b = 1 - \<bar>py_mod (a - b + 180) 360 - 180\<bar> / 180"
  by (simp add: score_angle_difference_def normalised_abs)

lemma score_angle_difference_same: "score_angle_difference a a = 1"
proof -
  have "py_mod 180 360 = 180"
    by (rule py_mod_360_unique [where k = 0]) simp_all
  then show ?thesis by (simp add: score_angle_difference_def)
qed

lemma score_angle_difference_opposite: "score_angle_difference a (a + 180) = 0"
proof -
  have "py_mod 360 360 = 0"
    by (rule py_mod_360_unique [where k = 1]) simp_all
  then show ?thesis by (simp add: score_angle_difference_def)
qed

lemma score_angle_difference_commute:
  "score_angle_difference a b = score_angle_difference b a"
  by (simp add: score_angle_difference_def abs_minus_commute)

lemma score_angle_difference_turn_left:
  "score_angle_difference (a + 360 * of_int k) b = score_angle_difference a b"
proof -
  have "a + 360 * of_int k - b + 180 = (a - b + 180) + 360 * of_int k" by simp
  then show ?thesis
    unfolding score_angle_difference_signed by (simp only: py_mod_360_shift)
qed

lemma score_angle_difference_turn_right:
  "score_angle_difference a (b + 360 * of_int k) = score_angle_difference a b"
  using score_angle_difference_turn_left [of b k a] score_angle_difference_commute
  by metis

lemma score_angle_difference_range:
  "0 \<le> score_angle_difference a b \<and> score_angle_difference a b \<le> 1"
  using py_mod_360_range [of "\<bar>a - b\<bar> + 180"]
  by (auto simp: score_angle_difference_def Let_def abs_if field_simps)

subsection \<open>In binary64 arithmetic\<close>

lemma exponent_above_eq:
  "2 ^ e \<le> x \<Longrightarrow> x < 2 * 2 ^ e \<Longrightarrow> e \<le> n \<Longrightarrow> exponent_above n x = int e"
proof (induction n arbitrary: x e)
  case 0
  then show ?case by simp
next
  case (Suc n)
  show ?case
  proof (cases e)
    case 0
    with Suc.prems show ?thesis by simp
  next
    case (Suc e')
    have "(1::real) \<le> 2 ^ e'" by simp
    moreover have "2 * 2 ^ e' \<le> x" using Suc.prems(1) \<open>e = Suc e'\<close> by simp
    ultimately have "\<not> x < 2" by linarith
    moreover have "exponent_above n (x / 2) = int e'"
      using Suc.prems \<open>e = Suc e'\<close> by (intro Suc.IH) auto
    ultimately show ?thesis using \<open>e = Suc e'\<close> by simp
  qed
qed

lemma exponent_below_eq:
  "1 / 2 ^ e \<le> x \<Longrightarrow> x < 2 / 2 ^ e \<Longrightarrow> e \<le> n \<Longrightarrow> exponent_below n x = - int e"
proof (induction n arbitrary: x e)
  case 0
  then show ?case by simp
next
  case (Suc n)
  show ?case
  proof (cases e)
    case 0
    with Suc.prems show ?thesis by simp
  next
    case (Suc e')
    have "1 / 2 ^ e' \<le> (1::real)" by (simp add: divide_le_eq)
    moreover have "x < 1 / 2 ^ e'" using Suc.prems(2) \<open>e = Suc e'\<close> by simp
    ultimately have "\<not> 1 \<le> x" by linarith
    moreover have "exponent_below n (2 * x) = - int e'"
      using Suc.prems \<open>e = Suc e'\<close> by (intro Suc.IH) (auto simp: field_simps)
    ultimately show ?thesis using \<open>e = Suc e'\<close> by simp
  qed
qed

lemma round_double_above:
  assumes "2 ^ e \<le> \<bar>x\<bar>" and "\<bar>x\<bar> < 2 * 2 ^ e" and "e \<le> 1023"
  shows "round_double x = of_int (round_half_even (x * 2 ^ 52 / 2 ^ e)) * 2 ^ e / 2 ^ 52"
proof -
  have "(1::real) \<le> 2 ^ e" by simp
  with assms(1) have "1 \<le> \<bar>x\<bar>" by linarith
  then have "exponent x = int e"
    using assms by (simp add: exponent_def exponent_above_eq)
  moreover have "(2::real) powi (int e - 52) = 2 ^ e / 2 ^ 52"
    by (simp add: power_int_diff)
  ultimately have u: "ulp x = 2 ^ e / 2 ^ 52" by (simp add: ulp_def)
  have a: "x / ulp x = x * 2 ^ 52 / 2 ^ e" unfolding u by simp
  show ?thesis unfolding round_double_def a unfolding u by simp
qed

lemma round_double_below:
  assumes "1 / 2 ^ e \<le> \<bar>x\<bar>" and "\<bar>x\<bar> < 2 / 2 ^ e" and "1 \<le> e" and "e \<le> 1022"
  shows "round_double x = of_int (round_half_even (x * 2 ^ 52 * 2 ^ e)) / (2 ^ 52 * 2 ^ e)"
proof -
  have "(2::real) ^ 1 \<le> 2 ^ e" using assms(3) by (intro power_increasing) simp_all
  then have "2 / 2 ^ e \<le> (1::real)" by (simp add: divide_le_eq)
  with assms(2) have "\<not> 1 \<le> \<bar>x\<bar>" by linarith
  then have "exponent x = - int e"
    using assms by (simp add: exponent_def exponent_below_eq)
  moreover have "(2::real) powi (- int e - 52) = 1 / (2 ^ 52 * 2 ^ e)"
    by (simp add: power_int_diff power_int_minus field_simps)
  ultimately have u: "ulp x = 1 / (2 ^ 52 * 2 ^ e)" by (simp add: ulp_def)
  have a: "x / ulp x = x * 2 ^ 52 * 2 ^ e" unfolding u by simp
  show ?thesis unfolding round_double_def a unfolding u by simp
qed

lemma round_half_even_of_int: "round_half_even (of_int k) = k"
  by (simp add: round_half_even_def)

lemma round_half_even_minus: "round_half_even (- x) = - round_half_even x"
proof (cases "x = of_int \<lfloor>x\<rfloor>")
  case True
  define k where "k = \<lfloor>x\<rfloor>"
  with True have x: "x = of_int k" by simp
  then have "round_half_even (- x) = round_half_even (of_int (- k))" by simp
  also have "\<dots> = - k" by (rule round_half_even_of_int)
  finally show ?thesis using x by (simp add: round_half_even_of_int)
next
  case False
  define f where "f = \<lfloor>x\<rfloor>"
  have lo: "of_int f < x" using False of_int_floor_le [of x] unfolding f_def by linarith
  have hi: "x < of_int f + 1" unfolding f_def by linarith
  have fl: "\<lfloor>- x\<rfloor> = - f - 1"
    by (rule floor_unique) (use lo hi in simp_all)
  show ?thesis
    using lo hi unfolding round_half_even_def fl f_def [symmetric] Let_def
    by (auto simp: algebra_simps)
qed

lemma round_double_minus: "round_double (- x) = - round_double x"
  by (simp add: round_double_def ulp_def exponent_def round_half_even_minus)

lemma round_double_0: "round_double 0 = 0"
  by (simp add: round_double_def round_half_even_def)

lemma round_double_1: "round_double 1 = 1"
  by (subst round_double_above [where e = 0]) (simp_all add: round_half_even_def)

lemma round_double_180: "round_double 180 = 180"
  by (subst round_double_above [where e = 7]) (simp_all add: round_half_even_def)

lemma round_double_360: "round_double 360 = 360"
  by (subst round_double_above [where e = 8]) (simp_all add: round_half_even_def)

lemma score_angle_difference_double_same: "score_angle_difference_double a a = Some 1"
  by (simp add: score_angle_difference_double_def double_max_def round_double_0
      round_double_180 round_double_1 py_mod_def)

lemma score_angle_difference_double_opposite:
  "score_angle_difference_double a (a + 180) = Some 0"
proof -
  have n: "round_double (- 180) = - 180"
    using round_double_minus [of 180] by (simp add: round_double_180)
  show ?thesis
    by (simp add: score_angle_difference_double_def double_max_def n round_double_360
        round_double_1 round_double_0 py_mod_def)
qed

lemma score_angle_difference_double_commute:
  "score_angle_difference_double a b = score_angle_difference_double b a"
proof -
  have "round_double (b - a) = - round_double (a - b)"
    using round_double_minus [of "a - b"] by simp
  then show ?thesis by (simp add: score_angle_difference_double_def)
qed

subsection \<open>The rounding error\<close>

text \<open>
  Rounding moves a number by at most half the spacing of the doubles around it, which is
  at most the fraction 1 / 2^53 of the number in the normal range and 1 / 2^1075 below it.
\<close>

lemma round_half_even_error: "\<bar>of_int (round_half_even z) - z\<bar> \<le> 1 / 2"
proof -
  have "of_int \<lfloor>z\<rfloor> \<le> z" "z < of_int \<lfloor>z\<rfloor> + 1" by linarith+
  then show ?thesis by (auto simp: round_half_even_def Let_def)
qed

lemma exponent_below_at_least_1: "1 \<le> x \<Longrightarrow> exponent_below n x = 0"
  by (cases n) simp_all

lemma exponent_above_lower:
  "1 \<le> x \<Longrightarrow> 0 \<le> exponent_above n x \<and> 2 powi (exponent_above n x) \<le> x"
proof (induction n arbitrary: x)
  case 0
  then show ?case by simp
next
  case (Suc n)
  show ?case
  proof (cases "x < 2")
    case True
    with Suc.prems show ?thesis by simp
  next
    case False
    then have "1 \<le> x / 2" by simp
    from Suc.IH [OF this] have e: "0 \<le> exponent_above n (x / 2)"
      and p: "2 powi (exponent_above n (x / 2)) \<le> x / 2" by auto
    have "(2::real) powi (1 + exponent_above n (x / 2)) = 2 * 2 powi (exponent_above n (x / 2))"
      by (simp add: power_int_add)
    with e p False show ?thesis by simp
  qed
qed

lemma exponent_below_lower:
  "0 \<le> x \<Longrightarrow> x < 1
   \<Longrightarrow> 2 powi (exponent_below n x) \<le> x \<or> exponent_below n x = - int n"
proof (induction n arbitrary: x)
  case 0
  then show ?case by simp
next
  case (Suc n)
  show ?case
  proof (cases "1 \<le> 2 * x")
    case True
    then have "exponent_below n (2 * x) = 0" by (rule exponent_below_at_least_1)
    with Suc.prems True show ?thesis by (simp add: power_int_minus)
  next
    case False
    with Suc.prems have "0 \<le> 2 * x" "2 * x < 1" by simp_all
    from Suc.IH [OF this]
    have "2 powi (exponent_below n (2 * x)) \<le> 2 * x \<or> exponent_below n (2 * x) = - int n" .
    moreover have "(2::real) powi (exponent_below n (2 * x) - 1)
                   = 2 powi (exponent_below n (2 * x)) / 2"
      by (simp add: power_int_diff)
    ultimately show ?thesis using Suc.prems by auto
  qed
qed

lemma ulp_positive: "0 < ulp x"
  by (simp add: ulp_def)

lemma ulp_bound: "ulp x \<le> \<bar>x\<bar> / 2 ^ 52 \<or> ulp x = 1 / 2 ^ 1074"
proof (cases "1 \<le> \<bar>x\<bar>")
  case True
  then have "2 powi (exponent x) \<le> \<bar>x\<bar>"
    using exponent_above_lower [of "\<bar>x\<bar>" 1023] by (simp add: exponent_def)
  moreover have "ulp x = 2 powi (exponent x) / 2 ^ 52"
    by (simp add: ulp_def power_int_diff)
  ultimately show ?thesis by (simp add: divide_right_mono)
next
  case False
  then have "2 powi (exponent x) \<le> \<bar>x\<bar> \<or> exponent x = - 1022"
    using exponent_below_lower [of "\<bar>x\<bar>" 1022] by (simp add: exponent_def)
  moreover have u: "ulp x = 2 powi (exponent x) / 2 ^ 52"
    by (simp add: ulp_def power_int_diff)
  moreover have "exponent x = - 1022 \<Longrightarrow> ulp x = 1 / 2 ^ 1074"
    by (simp add: ulp_def power_int_minus field_simps)
  ultimately show ?thesis by (auto simp: divide_right_mono)
qed

lemma round_double_half_ulp: "\<bar>round_double x - x\<bar> \<le> ulp x / 2"
proof -
  have "round_double x - x = (of_int (round_half_even (x / ulp x)) - x / ulp x) * ulp x"
    using ulp_positive [of x] by (simp add: round_double_def algebra_simps)
  then have "\<bar>round_double x - x\<bar> = \<bar>of_int (round_half_even (x / ulp x)) - x / ulp x\<bar> * ulp x"
    using ulp_positive [of x] by (simp add: abs_mult)
  also have "\<dots> \<le> 1 / 2 * ulp x"
    using round_half_even_error [of "x / ulp x"] ulp_positive [of x]
    by (intro mult_right_mono) simp_all
  finally show ?thesis by simp
qed

lemma round_double_error: "\<bar>round_double x - x\<bar> \<le> \<bar>x\<bar> / 2 ^ 53 + 1 / 2 ^ 60"
proof -
  have small: "(1::real) / 2 ^ 1074 \<le> 1 / 2 ^ 59"
    by (intro divide_left_mono power_increasing) simp_all
  have pos: "0 \<le> \<bar>x\<bar> / 2 ^ 52" by simp
  have "ulp x \<le> \<bar>x\<bar> / 2 ^ 52 + 1 / 2 ^ 59"
    using ulp_bound [of x]
  proof
    assume "ulp x \<le> \<bar>x\<bar> / 2 ^ 52"
    then show ?thesis by simp
  next
    assume "ulp x = 1 / 2 ^ 1074"
    with small pos show ?thesis by linarith
  qed
  with round_double_half_ulp [of x] show ?thesis by simp
qed

text \<open>The size of the normalised difference is the distance to the nearest odd multiple of 180.\<close>

lemma normalised_nearest:
  "\<bar>py_mod s 360 - 180\<bar> \<le> \<bar>s - 180 - 360 * of_int j\<bar>"
proof -
  define k where "k = \<lfloor>s / 360\<rfloor>"
  define m where "m = py_mod s 360"
  have m: "0 \<le> m" "m < 360" using py_mod_360_range [of s] by (auto simp: m_def)
  have s: "s = m + 360 * of_int k" by (simp add: m_def k_def py_mod_def)
  consider "k = j" | "j + 1 \<le> k" | "k + 1 \<le> j" by linarith
  then show ?thesis
  proof cases
    case 1
    then show ?thesis using s by (simp add: m_def)
  next
    case 2
    then have "real_of_int j + 1 \<le> real_of_int k" by linarith
    with m s show ?thesis unfolding m_def [symmetric] by (simp add: abs_if; linarith?)
  next
    case 3
    then have "real_of_int k + 1 \<le> real_of_int j" by linarith
    with m s show ?thesis unfolding m_def [symmetric] by (simp add: abs_if; linarith?)
  qed
qed

lemma normalised_lipschitz:
  "\<bar>py_mod s 360 - 180\<bar> \<le> \<bar>py_mod t 360 - 180\<bar> + \<bar>s - t\<bar>"
proof -
  have "py_mod t 360 - 180 = t - 180 - 360 * of_int \<lfloor>t / 360\<rfloor>"
    by (simp add: py_mod_def)
  moreover have "\<bar>py_mod s 360 - 180\<bar> \<le> \<bar>s - 180 - 360 * of_int \<lfloor>t / 360\<rfloor>\<bar>"
    by (rule normalised_nearest)
  ultimately show ?thesis by linarith
qed

lemma abs_bound_upper: "\<bar>y - z\<bar> \<le> c \<Longrightarrow> y - z \<le> (c::real)"
  by linarith

lemma abs_bound_lower: "\<bar>y - z\<bar> \<le> c \<Longrightarrow> z - y \<le> (c::real)"
  by linarith

lemma score_angle_difference_double_close:
  assumes "\<bar>a - b\<bar> \<le> 36000"
  shows "\<exists>u. score_angle_difference_double a b = Some u
             \<and> \<bar>u - score_angle_difference a b\<bar> \<le> 1 / 2 ^ 44"
proof -
  define x where "x = \<bar>a - b\<bar>"
  define d where "d = round_double (a - b)"
  define s where "s = round_double (\<bar>d\<bar> + 180)"
  define f where "f = round_double (py_mod s 360 - 180)"
  define q where "q = round_double (\<bar>f\<bar> / 180)"
  define r where "r = round_double (1 - q)"
  define t where "t = \<bar>py_mod (x + 180) 360 - 180\<bar>"
  have x: "0 \<le> x" "x \<le> 36000" using assms by (simp_all add: x_def)
  have ed: "\<bar>d - (a - b)\<bar> \<le> x / 2 ^ 53 + 1 / 2 ^ 60"
    unfolding d_def x_def by (rule round_double_error)
  then have dx: "\<bar>\<bar>d\<bar> - x\<bar> \<le> x / 2 ^ 53 + 1 / 2 ^ 60"
    unfolding x_def by linarith
  have es: "\<bar>s - (\<bar>d\<bar> + 180)\<bar> \<le> \<bar>\<bar>d\<bar> + 180\<bar> / 2 ^ 53 + 1 / 2 ^ 60"
    unfolding s_def by (rule round_double_error)
  have m: "0 \<le> py_mod s 360" "py_mod s 360 < 360"
    using py_mod_360_range [of s] by auto
  have ef: "\<bar>f - (py_mod s 360 - 180)\<bar> \<le> \<bar>py_mod s 360 - 180\<bar> / 2 ^ 53 + 1 / 2 ^ 60"
    unfolding f_def by (rule round_double_error)
  have eq: "\<bar>q - \<bar>f\<bar> / 180\<bar> \<le> \<bar>\<bar>f\<bar> / 180\<bar> / 2 ^ 53 + 1 / 2 ^ 60"
    unfolding q_def by (rule round_double_error)
  have er: "\<bar>r - (1 - q)\<bar> \<le> \<bar>1 - q\<bar> / 2 ^ 53 + 1 / 2 ^ 60"
    unfolding r_def by (rule round_double_error)
  have l1: "\<bar>py_mod s 360 - 180\<bar> \<le> t + \<bar>s - (x + 180)\<bar>"
    unfolding t_def by (rule normalised_lipschitz)
  have l2: "t \<le> \<bar>py_mod s 360 - 180\<bar> + \<bar>x + 180 - s\<bar>"
    unfolding t_def by (rule normalised_lipschitz)
  have no_overflow: "\<not> double_max < \<bar>d\<bar>"
  proof -
    have "\<bar>d\<bar> \<le> 2 ^ 16" using dx x by (simp add: abs_le_iff; linarith?)
    moreover have "(2::real) ^ 16 \<le> 1 * 2 ^ 971" by simp
    moreover have "(1::real) * 2 ^ 971 \<le> double_max"
      unfolding double_max_def by (intro mult_right_mono) simp_all
    ultimately show ?thesis by linarith
  qed
  have result: "score_angle_difference_double a b = Some r"
    using no_overflow
    by (simp add: score_angle_difference_double_def Let_def d_def s_def f_def q_def r_def)
  have exact: "score_angle_difference a b = 1 - t / 180"
    by (simp add: score_angle_difference_def Let_def t_def x_def)
  define D where "D = \<bar>d\<bar>"
  define M where "M = \<bar>py_mod s 360 - 180\<bar>"
  define F where "F = \<bar>f\<bar>"
  have D0: "0 \<le> D" by (simp add: D_def)
  have dx': "\<bar>D - x\<bar> \<le> x / 2 ^ 53 + 1 / 2 ^ 60"
    using dx by (simp add: D_def)
  have D1: "D \<le> x + 4608001 / 2 ^ 60"
    using abs_bound_upper [OF dx'] x(2) by (simp; argo?)
  have D2: "x - 4608001 / 2 ^ 60 \<le> D"
    using abs_bound_lower [OF dx'] x(2) by (simp; argo?)
  have es': "\<bar>s - (D + 180)\<bar> \<le> (D + 180) / 2 ^ 53 + 1 / 2 ^ 60"
    using es D0 by (simp add: D_def)
  have S1: "s - (x + 180) \<le> 9239043 / 2 ^ 60"
    using abs_bound_upper [OF es'] D1 D2 x(2) by (simp; argo?)
  have S2: "x + 180 - s \<le> 9239043 / 2 ^ 60"
    using abs_bound_lower [OF es'] D1 D2 x(2) by (simp; argo?)
  have S: "\<bar>s - (x + 180)\<bar> \<le> 9239043 / 2 ^ 60" "\<bar>x + 180 - s\<bar> \<le> 9239043 / 2 ^ 60"
    using S1 S2 by linarith+
  have M0: "0 \<le> M" by (simp add: M_def)
  have M1: "M \<le> 180" using m unfolding M_def by linarith
  have Mt1: "M - t \<le> 9239043 / 2 ^ 60"
    using l1 S(1) unfolding M_def [symmetric] by linarith
  have Mt2: "t - M \<le> 9239043 / 2 ^ 60"
    using l2 S(2) unfolding M_def [symmetric] by linarith
  have ef': "\<bar>f - (py_mod s 360 - 180)\<bar> \<le> M / 2 ^ 53 + 1 / 2 ^ 60"
    using ef by (simp add: M_def)
  have F0: "0 \<le> F" by (simp add: F_def)
  have "\<bar>F - M\<bar> \<le> \<bar>f - (py_mod s 360 - 180)\<bar>"
    unfolding F_def M_def by linarith
  with ef' have FM: "\<bar>F - M\<bar> \<le> M / 2 ^ 53 + 1 / 2 ^ 60" by linarith
  have F1: "F - M \<le> 23041 / 2 ^ 60"
    using abs_bound_upper [OF FM] M1 by (simp; argo?)
  have F2: "M - F \<le> 23041 / 2 ^ 60"
    using abs_bound_lower [OF FM] M1 by (simp; argo?)
  have eq': "\<bar>q - F / 180\<bar> \<le> F / 180 / 2 ^ 53 + 1 / 2 ^ 60"
    using eq F0 by (simp add: F_def)
  have Q1: "q - F / 180 \<le> 130 / 2 ^ 60"
    using abs_bound_upper [OF eq'] F1 M1 by (simp; argo?)
  have Q2: "F / 180 - q \<le> 130 / 2 ^ 60"
    using abs_bound_lower [OF eq'] F1 M1 by (simp; argo?)
  have q1: "1 - q \<le> 1 + 1 / 2 ^ 40"
    using Q2 F0 by (simp; argo?)
  have q2: "q - 1 \<le> 1 + 1 / 2 ^ 40"
    using Q1 F1 M1 by (simp; argo?)
  have q3: "\<bar>1 - q\<bar> \<le> 1 + 1 / 2 ^ 40"
    using q1 q2 by linarith
  have er': "\<bar>r - (1 - q)\<bar> \<le> (1 + 1 / 2 ^ 40) / 2 ^ 53 + 1 / 2 ^ 60"
  proof -
    have "\<bar>1 - q\<bar> / 2 ^ 53 \<le> (1 + 1 / 2 ^ 40) / 2 ^ 53"
      using q3 by (intro divide_right_mono) simp_all
    with er show ?thesis by linarith
  qed
  have R1: "r - (1 - q) \<le> 130 / 2 ^ 60"
    using abs_bound_upper [OF er'] by (simp; argo?)
  have R2: "1 - q - r \<le> 130 / 2 ^ 60"
    using abs_bound_lower [OF er'] by (simp; argo?)
  have lo: "r - (1 - t / 180) \<le> 1 / 2 ^ 44"
    using R1 Q2 F2 Mt2 by (simp; argo?)
  have hi: "(1 - t / 180) - r \<le> 1 / 2 ^ 44"
    using R2 Q1 F1 Mt1 by (simp; argo?)
  from lo hi have "\<bar>r - (1 - t / 180)\<bar> \<le> 1 / 2 ^ 44"
    by linarith
  with result exact show ?thesis by simp
qed

lemma score_angle_difference_double_turn:
  assumes "\<bar>a - b\<bar> \<le> 36000" and "\<bar>a + 360 * of_int k - b\<bar> \<le> 36000"
  shows "\<exists>u v. score_angle_difference_double a b = Some u
               \<and> score_angle_difference_double (a + 360 * of_int k) b = Some v
               \<and> \<bar>v - u\<bar> \<le> 1 / 2 ^ 43"
proof -
  from score_angle_difference_double_close [OF assms(1)]
  obtain u where u: "score_angle_difference_double a b = Some u"
    "\<bar>u - score_angle_difference a b\<bar> \<le> 1 / 2 ^ 44" by blast
  from score_angle_difference_double_close [OF assms(2)]
  obtain v where v: "score_angle_difference_double (a + 360 * of_int k) b = Some v"
    "\<bar>v - score_angle_difference (a + 360 * of_int k) b\<bar> \<le> 1 / 2 ^ 44" by blast
  have "\<bar>v - score_angle_difference a b\<bar> \<le> 1 / 2 ^ 44"
    using v(2) by (simp only: score_angle_difference_turn_left)
  note g = this
  have "v - u \<le> 1 / 2 ^ 43"
    using abs_bound_upper [OF g] abs_bound_lower [OF u(2)] by (simp; argo?)
  moreover have "u - v \<le> 1 / 2 ^ 43"
    using abs_bound_lower [OF g] abs_bound_upper [OF u(2)] by (simp; argo?)
  ultimately have "\<bar>v - u\<bar> \<le> 1 / 2 ^ 43" by linarith
  with u(1) v(1) show ?thesis by blast
qed

subsection \<open>Examples in binary64 arithmetic\<close>

text \<open>
  The doubles of the examples: 360.5 and 0.5, which are 360 apart, the double nearest to
  0.1, the double nearest to 1000.1, and that double plus 180 as the code adds them.
\<close>

lemma round_double_examples:
  "round_double (721 / 2) = (721 / 2) \<and> round_double (1 / 2) = (1 / 2)
   \<and> round_double (3602879701896397 / 36028797018963968) = (3602879701896397 / 36028797018963968)
   \<and> round_double (8796972631510221 / 8796093022208) = (8796972631510221 / 8796093022208)"
proof -
  have i1: "round_double (721 / 2) = (721 / 2)"
    by (subst round_double_above [where e = 8]) (simp_all add: round_half_even_def)
  have i2: "round_double (1 / 2) = (1 / 2)"
    by (subst round_double_below [where e = 1]) (simp_all add: round_half_even_def)
  have i3: "round_double (3602879701896397 / 36028797018963968) = (3602879701896397 / 36028797018963968)"
    by (subst round_double_below [where e = 4]) (simp_all add: round_half_even_def)
  have i4: "round_double (8796972631510221 / 8796093022208) = (8796972631510221 / 8796093022208)"
    by (subst round_double_above [where e = 9]) (simp_all add: round_half_even_def)
  show ?thesis by (simp only: i1 i2 i3 i4 simp_thms)
qed

lemma round_double_sum_example:
  "round_double ((8796972631510221 / 8796093022208) + 180) = (2595067343876915 / 2199023255552)"
proof -
  have zb: "round_double (10380269375507661 / 8796093022208) = (2595067343876915 / 2199023255552)"
    by (subst round_double_above [where e = 10]) (simp_all add: round_half_even_def)
  show ?thesis by (simp add: zb)
qed

lemma score_angle_difference_double_at_360_5:
  "score_angle_difference_double (721 / 2) (3602879701896397 / 36028797018963968) = Some (2246795814099281 / 2251799813685248)"
proof -
  have xd: "round_double (12984778445634614067 / 36028797018963968) = (3170111925203763 / 8796093022208)"
    by (subst round_double_above [where e = 8]) (simp_all add: round_half_even_def)
  have xs: "round_double (4753408669201203 / 8796093022208) = (4753408669201203 / 8796093022208)"
    by (subst round_double_above [where e = 9]) (simp_all add: round_half_even_def)
  have xm: "py_mod (4753408669201203 / 8796093022208) 360 = (1586815181206323 / 8796093022208)"
    by (simp add: py_mod_def)
  have xf: "round_double (3518437208883 / 8796093022208) = (3518437208883 / 8796093022208)"
    by (subst round_double_below [where e = 2]) (simp_all add: round_half_even_def)
  have xq: "round_double (1172812402961 / 527765581332480) = (1281023894007535 / 576460752303423488)"
    by (subst round_double_below [where e = 9]) (simp_all add: round_half_even_def)
  have xr: "round_double (575179728409415953 / 576460752303423488) = (2246795814099281 / 2251799813685248)"
    by (subst round_double_below [where e = 1]) (simp_all add: round_half_even_def)
  show ?thesis
    by (simp add: score_angle_difference_double_def Let_def double_max_def xd xs xm xf xq xr)
qed

lemma score_angle_difference_double_at_0_5:
  "score_angle_difference_double (1 / 2) (3602879701896397 / 36028797018963968) = Some (8987183256397123 / 9007199254740992)"
proof -
  have yd: "round_double (14411518807585587 / 36028797018963968) = (3602879701896397 / 9007199254740992)"
    by (subst round_double_below [where e = 2]) (simp_all add: round_half_even_def)
  have ys: "round_double (1624898745555274957 / 9007199254740992) = (6347260724825293 / 35184372088832)"
    by (subst round_double_above [where e = 7]) (simp_all add: round_half_even_def)
  have ym: "py_mod (6347260724825293 / 35184372088832) 360 = (6347260724825293 / 35184372088832)"
    by (simp add: py_mod_def)
  have yf: "round_double (14073748835533 / 35184372088832) = (14073748835533 / 35184372088832)"
    by (subst round_double_below [where e = 2]) (simp_all add: round_half_even_def)
  have yq: "round_double (14073748835533 / 6333186975989760) = (640511947003813 / 288230376151711744)"
    by (subst round_double_below [where e = 9]) (simp_all add: round_half_even_def)
  have yr: "round_double (287589864204707931 / 288230376151711744) = (8987183256397123 / 9007199254740992)"
    by (subst round_double_below [where e = 1]) (simp_all add: round_half_even_def)
  show ?thesis
    by (simp add: score_angle_difference_double_def Let_def double_max_def yd ys ym yf yq yr)
qed

lemma score_angle_difference_double_at_1000_1:
  "score_angle_difference_double (8796972631510221 / 8796093022208) (2595067343876915 / 2199023255552) = Some (3 / 4503599627370496)"
proof -
  have zd: "round_double (- (1583296743997439 / 8796093022208)) = (- (1583296743997439 / 8796093022208))"
    by (subst round_double_above [where e = 7]) (simp_all add: round_half_even_def)
  have zs: "round_double (3166593487994879 / 8796093022208) = (3166593487994879 / 8796093022208)"
    by (subst round_double_above [where e = 8]) (simp_all add: round_half_even_def)
  have zm: "py_mod (3166593487994879 / 8796093022208) 360 = (3166593487994879 / 8796093022208)"
    by (simp add: py_mod_def)
  have zf: "round_double (1583296743997439 / 8796093022208) = (1583296743997439 / 8796093022208)"
    by (subst round_double_above [where e = 7]) (simp_all add: round_half_even_def)
  have zq: "round_double (1583296743997439 / 1583296743997440) = (4503599627370493 / 4503599627370496)"
    by (subst round_double_below [where e = 1]) (simp_all add: round_half_even_def)
  have zr: "round_double (3 / 4503599627370496) = (3 / 4503599627370496)"
    by (subst round_double_below [where e = 51]) (simp_all add: round_half_even_def)
  show ?thesis
    by (simp add: score_angle_difference_double_def Let_def double_max_def zd zs zm zf zq zr)
qed

text \<open>
  C8 (as amended): in binary64 arithmetic an angle scores 1.0 against itself, an angle
  scores 0.0 against the angle that is exactly 180 degrees further, and the score is the
  same with its two arguments exchanged (a NaN on both sides where the subtraction
  overflows). Turning either argument by a whole number of full circles changes the score
  by at most 1 / 2^43, where the two angles are at most 36000 degrees apart before and
  after the turn.
\<close>

theorem score_angle_difference_double_properties:
  "score_angle_difference_double a a = Some 1
   \<and> score_angle_difference_double a (a + 180) = Some 0
   \<and> score_angle_difference_double a b = score_angle_difference_double b a
   \<and> (\<bar>a - b\<bar> \<le> 36000 \<and> \<bar>a + 360 * of_int k - b\<bar> \<le> 36000 \<longrightarrow>
        (\<exists>u v. score_angle_difference_double a b = Some u
               \<and> score_angle_difference_double (a + 360 * of_int k) b = Some v
               \<and> \<bar>v - u\<bar> \<le> 1 / 2 ^ 43))
   \<and> (\<bar>a - b\<bar> \<le> 36000 \<and> \<bar>a - (b + 360 * of_int k)\<bar> \<le> 36000 \<longrightarrow>
        (\<exists>u v. score_angle_difference_double a b = Some u
               \<and> score_angle_difference_double a (b + 360 * of_int k) = Some v
               \<and> \<bar>v - u\<bar> \<le> 1 / 2 ^ 43))"
proof -
  have c: "score_angle_difference_double a b = score_angle_difference_double b a"
    by (rule score_angle_difference_double_commute)
  have l: "\<bar>a - b\<bar> \<le> 36000 \<and> \<bar>a + 360 * of_int k - b\<bar> \<le> 36000 \<longrightarrow>
        (\<exists>u v. score_angle_difference_double a b = Some u
               \<and> score_angle_difference_double (a + 360 * of_int k) b = Some v
               \<and> \<bar>v - u\<bar> \<le> 1 / 2 ^ 43)"
    using score_angle_difference_double_turn [of a b k] by blast
  have r: "\<bar>a - b\<bar> \<le> 36000 \<and> \<bar>a - (b + 360 * of_int k)\<bar> \<le> 36000 \<longrightarrow>
        (\<exists>u v. score_angle_difference_double a b = Some u
               \<and> score_angle_difference_double a (b + 360 * of_int k) = Some v
               \<and> \<bar>v - u\<bar> \<le> 1 / 2 ^ 43)"
  proof
    assume h: "\<bar>a - b\<bar> \<le> 36000 \<and> \<bar>a - (b + 360 * of_int k)\<bar> \<le> 36000"
    then have "\<bar>b - a\<bar> \<le> 36000" and "\<bar>b + 360 * of_int k - a\<bar> \<le> 36000"
      by linarith+
    from score_angle_difference_double_turn [OF this]
    obtain u v where "score_angle_difference_double b a = Some u"
      and "score_angle_difference_double (b + 360 * of_int k) a = Some v"
      and "\<bar>v - u\<bar> \<le> 1 / 2 ^ 43" by blast
    then have "score_angle_difference_double a b = Some u
               \<and> score_angle_difference_double a (b + 360 * of_int k) = Some v
               \<and> \<bar>v - u\<bar> \<le> 1 / 2 ^ 43"
      by (simp add: score_angle_difference_double_commute [of a])
    then show "\<exists>u v. score_angle_difference_double a b = Some u
               \<and> score_angle_difference_double a (b + 360 * of_int k) = Some v
               \<and> \<bar>v - u\<bar> \<le> 1 / 2 ^ 43" by blast
  qed
  from c l r show ?thesis
    by (simp only: score_angle_difference_double_same score_angle_difference_double_opposite
        simp_thms)
qed

theorem score_angle_difference_double_properties_witness:
  "\<bar>1 / 2 - 3602879701896397 / 36028797018963968\<bar> \<le> (36000::real)
   \<and> \<bar>1 / 2 + 360 * of_int 1 - 3602879701896397 / 36028797018963968\<bar> \<le> (36000::real)
   \<and> \<bar>1 / 2 - (3602879701896397 / 36028797018963968 + 360 * of_int 1)\<bar> \<le> (36000::real)
   \<and> (\<exists>u v. score_angle_difference_double (1 / 2) (3602879701896397 / 36028797018963968)
                 = Some u
          \<and> score_angle_difference_double (1 / 2 + 360 * of_int 1)
                 (3602879701896397 / 36028797018963968) = Some v
          \<and> \<bar>v - u\<bar> \<le> 1 / 2 ^ 43)
   \<and> (\<exists>u v. score_angle_difference_double (1 / 2) (3602879701896397 / 36028797018963968)
                 = Some u
          \<and> score_angle_difference_double (1 / 2)
                 (3602879701896397 / 36028797018963968 + 360 * of_int 1) = Some v
          \<and> \<bar>v - u\<bar> \<le> 1 / 2 ^ 43)"
proof -
  have h1: "\<bar>1 / 2 - 3602879701896397 / 36028797018963968\<bar> \<le> (36000::real)" by simp
  have h2: "\<bar>1 / 2 + 360 * of_int 1 - 3602879701896397 / 36028797018963968\<bar> \<le> (36000::real)"
    by simp
  have h3: "\<bar>1 / 2 - (3602879701896397 / 36028797018963968 + 360 * of_int 1)\<bar> \<le> (36000::real)"
    by simp
  from h1 h2 h3
    score_angle_difference_double_properties
      [of "1 / 2" "3602879701896397 / 36028797018963968" 1]
  show ?thesis by blast
qed

text \<open>
  In binary64 arithmetic the score of 360.5 against the double nearest to 0.1 differs in
  its last bit from the score of 0.5 against the same double, although 360.5 is 0.5
  turned by one full circle; and the double nearest to 1000.1 scores 3 / 2^52, not 0.0,
  against the double that the code computes for it plus 180.
\<close>

theorem score_angle_difference_double_shift_counterexample:
  "score_angle_difference_double (1 / 2 + 360 * of_int 1) (3602879701896397 / 36028797018963968)
     \<noteq> score_angle_difference_double (1 / 2) (3602879701896397 / 36028797018963968)
   \<and> score_angle_difference_double (1 / 2 + 360 * of_int 1) (3602879701896397 / 36028797018963968) = Some (2246795814099281 / 2251799813685248)
   \<and> score_angle_difference_double (1 / 2) (3602879701896397 / 36028797018963968) = Some (8987183256397123 / 9007199254740992)
   \<and> score_angle_difference_double (8796972631510221 / 8796093022208) (round_double ((8796972631510221 / 8796093022208) + 180)) = Some (3 / 4503599627370496)
   \<and> score_angle_difference_double (8796972631510221 / 8796093022208) (round_double ((8796972631510221 / 8796093022208) + 180)) \<noteq> Some 0"
proof -
  have s: "(1::real) / 2 + 360 * of_int 1 = 721 / 2" by simp
  show ?thesis
    unfolding s round_double_sum_example
    by (simp add: score_angle_difference_double_at_360_5
        score_angle_difference_double_at_0_5 score_angle_difference_double_at_1000_1)
qed

section \<open>The geographic score in full\<close>

text \<open>
  C7: for a positive radius the geographic score is 1 minus the distance over the radius
  where the distance of the candidate from the point wanted is within the radius, and 0
  otherwise: 1 at distance 0, 0 at the radius and beyond, linear in between.
\<close>

theorem score_geolocation_linear:
  assumes "0 < radius"
  shows "score_geolocation e wanted actual radius is_last_lrp =
           (if distance e (coords wanted) (position e actual) \<le> radius
            then 1 - distance e (coords wanted) (position e actual) / radius else 0)
         \<and> (distance e (coords wanted) (position e actual) = 0
              \<longrightarrow> score_geolocation e wanted actual radius is_last_lrp = 1)
         \<and> (radius \<le> distance e (coords wanted) (position e actual)
              \<longrightarrow> score_geolocation e wanted actual radius is_last_lrp = 0)"
  using assms by (simp add: score_geolocation_def Let_def)

lemma grid_position_hook_candidate: "grid_position hook_candidate = (130, 0)"
  by (simp add: grid_position_def hook_candidate_def hook_line_def grid_distance_def
      grid_between_def)

lemma grid_distance_east_lrp:
  "distance grid_env (coords east_lrp) (position grid_env hook_candidate) = 10"
  by (simp add: grid_env_def grid_position_hook_candidate coords_def east_lrp_def
      grid_distance_def)

lemma grid_distance_on_line:
  "distance grid_env (coords (east_lrp\<lparr>lat := 0\<rparr>)) (position grid_env hook_candidate) = 0"
  by (simp add: grid_env_def grid_position_hook_candidate coords_def east_lrp_def
      grid_distance_def)

theorem score_geolocation_linear_witness:
  "(0::real) < 100 \<and> (0::real) < 10
   \<and> distance grid_env (coords east_lrp) (position grid_env hook_candidate) = 10
   \<and> distance grid_env (coords (east_lrp\<lparr>lat := 0\<rparr>)) (position grid_env hook_candidate) = 0
   \<and> score_geolocation grid_env east_lrp hook_candidate 100 False = 9 / 10
   \<and> score_geolocation grid_env (east_lrp\<lparr>lat := 0\<rparr>) hook_candidate 100 False = 1
   \<and> score_geolocation grid_env east_lrp hook_candidate 10 False = 0"
  using score_geolocation_linear [of 100 grid_env east_lrp hook_candidate False]
    score_geolocation_linear [of 100 grid_env "east_lrp\<lparr>lat := 0\<rparr>" hook_candidate False]
    score_geolocation_linear [of 10 grid_env east_lrp hook_candidate False]
  by (simp add: grid_distance_east_lrp grid_distance_on_line)

section \<open>The range of the scores\<close>

lemma score_fow_range: "0 \<le> score_fow w a \<and> score_fow w a \<le> 1"
  by (cases w; cases a) (simp_all add: score_fow_def FOW_STAND_IN_SCORE_def)

lemma frc_value_range: "0 \<le> frc_value c \<and> frc_value c \<le> 7"
  by (cases c) simp_all

lemma score_frc_range: "0 \<le> score_frc w a \<and> score_frc w a \<le> 1"
proof -
  have "\<bar>frc_value a - frc_value w\<bar> \<le> 7"
    using frc_value_range [of a] frc_value_range [of w] by linarith
  then have "real_of_int \<bar>frc_value a - frc_value w\<bar> \<le> 7" by linarith
  moreover have "0 \<le> real_of_int \<bar>frc_value a - frc_value w\<bar>" by simp
  ultimately show ?thesis by (simp add: score_frc_def)
qed

lemma score_geolocation_range:
  assumes "0 \<le> distance e (coords wanted) (position e actual)"
  shows "0 \<le> score_geolocation e wanted actual radius is_last_lrp
         \<and> score_geolocation e wanted actual radius is_last_lrp \<le> 1"
  using assms by (auto simp: score_geolocation_def Let_def field_simps)

lemma score_bearing_range:
  "0 \<le> score_bearing e wanted actual is_last_lrp
   \<and> score_bearing e wanted actual is_last_lrp \<le> 1"
  using score_angle_difference_range
  by (simp add: score_bearing_def Let_def split: option.split)

text \<open>
  C5: where the distance function gives the candidate a distance of 0 or more, each of the
  four sub-scores lies between 0 and 1, the four weights are 0.25 each and add up to 1,
  the score of a candidate is the weighted sum of the sub-scores, and it lies between 0
  and 1 as well.
\<close>

theorem score_lrp_candidate_in_unit_interval:
  assumes "0 \<le> distance e (coords wanted) (position e candidate)"
  shows "(0 \<le> score_fow (fow wanted) (line_fow (line candidate))
          \<and> score_fow (fow wanted) (line_fow (line candidate)) \<le> 1)
       \<and> (0 \<le> score_frc (frc wanted) (line_frc (line candidate))
          \<and> score_frc (frc wanted) (line_frc (line candidate)) \<le> 1)
       \<and> (0 \<le> score_geolocation e wanted candidate radius is_last_lrp
          \<and> score_geolocation e wanted candidate radius is_last_lrp \<le> 1)
       \<and> (0 \<le> score_bearing e wanted candidate is_last_lrp
          \<and> score_bearing e wanted candidate is_last_lrp \<le> 1)
       \<and> FOW_WEIGHT = 1 / 4 \<and> FRC_WEIGHT = 1 / 4 \<and> GEO_WEIGHT = 1 / 4 \<and> BEAR_WEIGHT = 1 / 4
       \<and> FOW_WEIGHT + FRC_WEIGHT + GEO_WEIGHT + BEAR_WEIGHT = 1
       \<and> score_lrp_candidate e wanted candidate radius is_last_lrp =
           FOW_WEIGHT * score_fow (fow wanted) (line_fow (line candidate))
           + FRC_WEIGHT * score_frc (frc wanted) (line_frc (line candidate))
           + GEO_WEIGHT * score_geolocation e wanted candidate radius is_last_lrp
           + BEAR_WEIGHT * score_bearing e wanted candidate is_last_lrp
       \<and> (0 \<le> score_lrp_candidate e wanted candidate radius is_last_lrp
          \<and> score_lrp_candidate e wanted candidate radius is_last_lrp \<le> 1)"
proof -
  note f = score_fow_range [of "fow wanted" "line_fow (line candidate)"]
  note c = score_frc_range [of "frc wanted" "line_frc (line candidate)"]
  note g = score_geolocation_range [OF assms, of radius is_last_lrp]
  note b = score_bearing_range [of e wanted candidate is_last_lrp]
  have w: "FOW_WEIGHT = 1 / 4 \<and> FRC_WEIGHT = 1 / 4 \<and> GEO_WEIGHT = 1 / 4
           \<and> BEAR_WEIGHT = 1 / 4 \<and> FOW_WEIGHT + FRC_WEIGHT + GEO_WEIGHT + BEAR_WEIGHT = 1"
    by (simp add: FOW_WEIGHT_def FRC_WEIGHT_def GEO_WEIGHT_def BEAR_WEIGHT_def)
  have s: "score_lrp_candidate e wanted candidate radius is_last_lrp =
           FOW_WEIGHT * score_fow (fow wanted) (line_fow (line candidate))
           + FRC_WEIGHT * score_frc (frc wanted) (line_frc (line candidate))
           + GEO_WEIGHT * score_geolocation e wanted candidate radius is_last_lrp
           + BEAR_WEIGHT * score_bearing e wanted candidate is_last_lrp"
    by (simp add: score_lrp_candidate_def)
  have t: "0 \<le> score_lrp_candidate e wanted candidate radius is_last_lrp
           \<and> score_lrp_candidate e wanted candidate radius is_last_lrp \<le> 1"
    using f c g b
    by (simp add: score_lrp_candidate_def FOW_WEIGHT_def FRC_WEIGHT_def GEO_WEIGHT_def
        BEAR_WEIGHT_def)
  from f c g b w s t show ?thesis by blast
qed

section \<open>The bearing score\<close>

lemma bearing_point_hook_candidate:
  "bearing_point grid_env hook_candidate False = Some (130, 50)"
  by (simp add: bearing_point_def grid_env_def grid_split_def hook_candidate_def
      hook_line_def grid_distance_def grid_between_def linestring_coords_def BEAR_DIST_def)

lemma score_bearing_hook_candidate:
  "score_bearing grid_env east_lrp hook_candidate False = 1 / 2"
proof -
  have p: "position grid_env hook_candidate = (130, 0)"
    by (simp add: grid_env_def grid_position_hook_candidate)
  have b: "degrees (bearing grid_env (130, 0) (130, 50)) = 0"
    by (simp add: grid_env_def grid_bearing_def degrees_def)
  have "score_angle_difference 90 0 = 1 / 2"
    by (simp add: score_angle_difference_def py_mod_def)
  with p b show ?thesis
    by (simp add: score_bearing_def bearing_point_hook_candidate east_lrp_def)
qed

theorem score_lrp_candidate_in_unit_interval_witness:
  "0 \<le> distance grid_env (coords east_lrp) (position grid_env hook_candidate)
   \<and> score_lrp_candidate grid_env east_lrp hook_candidate 100 False = 17 / 20
   \<and> 0 \<le> score_lrp_candidate grid_env east_lrp hook_candidate 100 False
   \<and> score_lrp_candidate grid_env east_lrp hook_candidate 100 False \<le> 1"
proof -
  have d: "0 \<le> distance grid_env (coords east_lrp) (position grid_env hook_candidate)"
    by (simp add: grid_distance_east_lrp)
  have g: "score_geolocation grid_env east_lrp hook_candidate 100 False = 9 / 10"
    by (simp add: score_geolocation_def grid_distance_east_lrp)
  have f: "score_fow (fow east_lrp) (line_fow (line hook_candidate)) = 1"
    by (simp add: score_fow_def FOW_STAND_IN_SCORE_def east_lrp_def hook_candidate_def
        hook_line_def)
  have c: "score_frc (frc east_lrp) (line_frc (line hook_candidate)) = 1"
    by (simp add: score_frc_def east_lrp_def hook_candidate_def hook_line_def)
  have v: "score_lrp_candidate grid_env east_lrp hook_candidate 100 False = 17 / 20"
    using score_lrp_candidate_in_unit_interval [OF d, of 100 False]
    by (simp add: f c g score_bearing_hook_candidate)
  from d v show ?thesis by simp
qed

text \<open>
  C3: on the example map the candidate lies 130 meters into its line, at (130, 0), and the
  sub-polyline after the split starts there. The code walks 130 + 20 = 150 meters along
  that sub-polyline and takes the bearing to (130, 50), due north of the candidate, where
  the point 20 meters ahead is (150, 0), due east; against a wanted bearing of 90 degrees
  the score is 0.5, not the 1.0 of the point 20 meters ahead.
\<close>

theorem score_bearing_probe_at_offset_plus_bear_dist:
  "split grid_env hook_candidate
     = (Some [(0, 0), (130, 0)], Some [(130, 0), (180, 0), (180, 50), (0, 50)])
   \<and> position grid_env hook_candidate = (130, 0)
   \<and> bearing_point grid_env hook_candidate False
       = Some (project_along_path grid_env [(130, 0), (180, 0), (180, 50), (0, 50)] 150)
   \<and> bearing_point grid_env hook_candidate False = Some (130, 50)
   \<and> project_along_path grid_env [(130, 0), (180, 0), (180, 50), (0, 50)] BEAR_DIST = (150, 0)
   \<and> score_bearing grid_env east_lrp hook_candidate False = 1 / 2
   \<and> score_angle_difference (bear east_lrp)
        (degrees (bearing grid_env (position grid_env hook_candidate) (150, 0))) = 1"
proof -
  have s: "split grid_env hook_candidate
     = (Some [(0, 0), (130, 0)], Some [(130, 0), (180, 0), (180, 50), (0, 50)])"
    by (simp add: grid_env_def grid_split_def hook_candidate_def hook_line_def
        grid_distance_def grid_between_def)
  have p: "position grid_env hook_candidate = (130, 0)"
    by (simp add: grid_env_def grid_position_hook_candidate)
  have w: "project_along_path grid_env [(130, 0), (180, 0), (180, 50), (0, 50)] 150 = (130, 50)"
    by (simp add: grid_env_def grid_distance_def grid_between_def)
  have n: "project_along_path grid_env [(130, 0), (180, 0), (180, 50), (0, 50)] BEAR_DIST
           = (150, 0)"
    by (simp add: grid_env_def grid_distance_def grid_between_def BEAR_DIST_def)
  have b: "degrees (bearing grid_env (130, 0) (150, 0)) = 90"
    by (simp add: grid_env_def grid_bearing_def degrees_def)
  have a: "score_angle_difference (bear east_lrp) 90 = 1"
    using score_angle_difference_same [of 90] by (simp add: east_lrp_def)
  from s p w n b a show ?thesis
    by (simp add: bearing_point_hook_candidate score_bearing_hook_candidate)
qed

section \<open>The point projection\<close>

text \<open>
  Whenever the walk returns a point, the line is one of the route and the offset lies on
  the line.
\<close>

lemma point_along_rest_bounds:
  "point_along_rest roads e lo = Inr (l, off) \<Longrightarrow> 0 \<le> lo \<Longrightarrow> well_formed_point e
   \<Longrightarrow> (l \<in> set roads \<or> l = line e) \<and> 0 \<le> off \<and> off \<le> line_length l"
proof (induction roads arbitrary: lo)
  case Nil
  then show ?case
    by (auto simp: well_formed_point_def Let_def mult_left_le split: if_splits)
next
  case (Cons road roads)
  show ?case
  proof (cases "lo > line_length road")
    case True
    with Cons.prems have "point_along_rest roads e (lo - line_length road) = Inr (l, off)"
      by simp
    from Cons.IH [OF this] True Cons.prems show ?thesis by auto
  next
    case False
    with Cons.prems show ?thesis by auto
  qed
qed

lemma point_along_linelocation_bounds:
  assumes "point_along_linelocation route d = Inr (l, off)"
    and "0 \<le> d" and "well_formed_point (start route)"
    and "well_formed_point (end_point route)"
  shows "l \<in> set (route_lines route) \<and> 0 \<le> off \<and> off \<le> line_length l"
proof (cases "d - line_length (line (start route)) * (1 - relative_offset (start route)) < 0")
  case True
  with assms(1) have l: "l = line (start route)"
    and off: "off = line_length (line (start route)) * relative_offset (start route) + d"
    by (auto simp: point_along_linelocation_def)
  have "0 \<le> line_length (line (start route)) * relative_offset (start route)"
    using assms(3) by (simp add: well_formed_point_def)
  with True assms(2) l off show ?thesis
    by (simp add: route_lines_def algebra_simps)
next
  case False
  with assms(1) have "point_along_rest (path_inbetween route) (end_point route)
      (d - line_length (line (start route)) * (1 - relative_offset (start route))) = Inr (l, off)"
    by (simp add: point_along_linelocation_def)
  from point_along_rest_bounds [OF this] False assms(4) show ?thesis
    by (auto simp: route_lines_def)
qed

text \<open>
  Short of the sum of the start remainder, the lines in between and the end portion the
  walk returns a point; beyond it the walk raises. At the sum itself neither lemma
  speaks.
\<close>

lemma point_along_rest_returns:
  "lo < sum_list (map line_length roads) + line_length (line e) * relative_offset e
   \<Longrightarrow> \<exists>l off. point_along_rest roads e lo = Inr (l, off)"
  by (induction roads arbitrary: lo) (auto simp: Let_def)

lemma point_along_rest_exhausted:
  "sum_list (map line_length roads) + line_length (line e) * relative_offset e < lo
   \<Longrightarrow> \<forall>r \<in> set roads. 0 \<le> line_length r \<Longrightarrow> 0 \<le> line_length (line e) * relative_offset e
   \<Longrightarrow> point_along_rest roads e lo
        = Inl (LRDecodeError ''Path length exceeded while projecting point'')"
proof (induction roads arbitrary: lo)
  case Nil
  then show ?case by (simp add: Let_def)
next
  case (Cons road roads)
  have "0 \<le> sum_list (map line_length roads)"
    using Cons.prems(2) by (intro sum_list_nonneg) auto
  with Cons.prems have gt: "line_length road < lo" by simp
  have "point_along_rest roads e (lo - line_length road)
        = Inl (LRDecodeError ''Path length exceeded while projecting point'')"
    using Cons.prems by (intro Cons.IH) auto
  with gt show ?case by simp
qed

lemma point_along_linelocation_returns:
  assumes "d < line_length (line (start route)) * (1 - relative_offset (start route))
               + sum_list (map line_length (path_inbetween route))
               + line_length (line (end_point route)) * relative_offset (end_point route)"
  shows "\<exists>l off. point_along_linelocation route d = Inr (l, off)"
proof (cases "d - line_length (line (start route)) * (1 - relative_offset (start route)) < 0")
  case True
  then show ?thesis by (simp add: point_along_linelocation_def)
next
  case False
  have "\<exists>l off. point_along_rest (path_inbetween route) (end_point route)
      (d - line_length (line (start route)) * (1 - relative_offset (start route))) = Inr (l, off)"
    using assms by (intro point_along_rest_returns) simp
  with False show ?thesis by (simp add: point_along_linelocation_def)
qed

lemma point_along_linelocation_exhausted:
  assumes "line_length (line (start route)) * (1 - relative_offset (start route))
               + sum_list (map line_length (path_inbetween route))
               + line_length (line (end_point route)) * relative_offset (end_point route) < d"
    and "\<forall>r \<in> set (path_inbetween route). 0 \<le> line_length r"
    and "well_formed_point (end_point route)"
  shows "point_along_linelocation route d
           = Inl (LRDecodeError ''Path length exceeded while projecting point'')"
proof -
  have e: "0 \<le> line_length (line (end_point route)) * relative_offset (end_point route)"
    using assms(3) by (simp add: well_formed_point_def)
  have s: "0 \<le> sum_list (map line_length (path_inbetween route))"
    using assms(2) by (intro sum_list_nonneg) auto
  from assms(1) e s
  have n: "\<not> d - line_length (line (start route)) * (1 - relative_offset (start route)) < 0"
    by simp
  have "point_along_rest (path_inbetween route) (end_point route)
      (d - line_length (line (start route)) * (1 - relative_offset (start route)))
        = Inl (LRDecodeError ''Path length exceeded while projecting point'')"
    using assms(1,2) e by (intro point_along_rest_exhausted) simp_all
  with n show ?thesis by (simp add: point_along_linelocation_def)
qed

lemma line_a_not_line_b: "line_a \<noteq> line_b"
  by (simp add: line_a_def line_b_def)

text \<open>
  C1: on the route over the whole of line a and the whole of line b, 100 meters each,
  walking 150 meters reaches the point 50 meters into line b. The code returns line b
  with the offset 100, the end of the route, for it returns the end offset on the end
  line whatever the distance left.
\<close>

theorem point_along_linelocation_end_line_offset:
  "route_length whole_route = 200
   \<and> point_projection_spec whole_route 150 = Some (line_b, 50)
   \<and> point_along_linelocation whole_route 150 = Inr (line_b, 100)"
proof -
  have "route_length whole_route = 200"
    using line_a_not_line_b
    by (simp add: route_length_def whole_route_def) (simp add: line_a_def line_b_def)
  moreover have "point_projection_spec whole_route 150 = Some (line_b, 50)"
    using line_a_not_line_b
    by (simp add: point_projection_spec_def route_length_def route_segments_def
        whole_route_def) (simp add: line_a_def line_b_def)
  moreover have "point_along_linelocation whole_route 150 = Inr (line_b, 100)"
    by (simp add: point_along_linelocation_def whole_route_def line_a_def line_b_def)
  ultimately show ?thesis by simp
qed

text \<open>
  C2: the route from the start of line a to the middle of line b is 150 meters long, and
  walking exactly 150 meters, which does not exceed the length, raises the error.
\<close>

theorem point_along_linelocation_raises_at_route_length:
  "route_length half_end_route = 150
   \<and> point_along_linelocation half_end_route 150
       = Inl (LRDecodeError ''Path length exceeded while projecting point'')"
proof -
  have "route_length half_end_route = 150"
    using line_a_not_line_b
    by (simp add: route_length_def half_end_route_def) (simp add: line_a_def line_b_def)
  moreover have "point_along_linelocation half_end_route 150
       = Inl (LRDecodeError ''Path length exceeded while projecting point'')"
    by (simp add: point_along_linelocation_def half_end_route_def line_a_def line_b_def)
  ultimately show ?thesis by simp
qed

section \<open>The point decoders\<close>

lemma decode_pointalongline_offset_base:
  "absolute_offset_pointalongline path reference = route_length path * poffs reference"
  by (simp add: absolute_offset_pointalongline_def)

text \<open>
  C4: on the route from the middle of line a over line c to the middle of line b, 200
  meters long over lines of 300 meters in all, and an offset of a quarter, the
  point-along-line decoder walks a quarter of the route length, 50 meters, and the
  decoder of the point of interest walks a quarter of the sum of the lines, 75 meters:
  the two decoders give different offsets on line c.
\<close>

theorem decode_poi_with_accesspoint_offset_base:
  "route_length mid_route = 200
   \<and> path_length (get_lines [mid_route]) = 300
   \<and> absolute_offset_pointalongline mid_route quarter_reference = 50
   \<and> absolute_offset_poi mid_route quarter_poi_reference = 75
   \<and> route_length mid_route * poffs_poi quarter_poi_reference = 50
   \<and> decode_pointalongline (\<lambda>ps. Inr mid_route) quarter_reference
       = Inr (PointAlongLine line_c 0 RIGHT NO_ORIENTATION_OR_UNKNOWN)
   \<and> decode_poi_with_accesspoint (\<lambda>ps. Inr mid_route) quarter_poi_reference
       = Inr (PoiWithAccessPoint line_c 25 RIGHT NO_ORIENTATION_OR_UNKNOWN (7, 8))"
proof -
  have r: "route_length mid_route = 200"
    using line_a_not_line_b
    by (simp add: route_length_def mid_route_def) (simp add: line_a_def line_b_def line_c_def)
  have p: "path_length (get_lines [mid_route]) = 300"
    by (simp add: path_length_def get_lines_def route_lines_def mid_route_def
        line_a_def line_b_def line_c_def)
  have a: "absolute_offset_pointalongline mid_route quarter_reference = 50"
    by (simp add: absolute_offset_pointalongline_def r quarter_reference_def)
  have b: "absolute_offset_poi mid_route quarter_poi_reference = 75"
    by (simp add: absolute_offset_poi_def p quarter_poi_reference_def)
  have q: "poffs_poi quarter_poi_reference = 1 / 4"
    by (simp add: quarter_poi_reference_def)
  have w: "point_along_linelocation mid_route 50 = Inr (line_c, 0)"
    by (simp add: point_along_linelocation_def mid_route_def line_a_def line_c_def)
  have v: "point_along_linelocation mid_route 75 = Inr (line_c, 25)"
    by (simp add: point_along_linelocation_def mid_route_def line_a_def line_c_def)
  have d: "decode_pointalongline (\<lambda>ps. Inr mid_route) quarter_reference
       = Inr (PointAlongLine line_c 0 RIGHT NO_ORIENTATION_OR_UNKNOWN)"
    by (simp add: decode_pointalongline_def a w) (simp add: quarter_reference_def)
  have f: "decode_poi_with_accesspoint (\<lambda>ps. Inr mid_route) quarter_poi_reference
       = Inr (PoiWithAccessPoint line_c 25 RIGHT NO_ORIENTATION_OR_UNKNOWN (7, 8))"
    by (simp add: decode_poi_with_accesspoint_def b v) (simp add: quarter_poi_reference_def)
  from r p a b q d f show ?thesis by simp
qed

end
